theory Spec2Isabelle
  imports Main "HOL-Library.Char_ord" "HOL-Library.List_Lexorder" "HOL-Library.Word"
begin

section \<open>Python values shared by the services\<close>

text \<open>
  The exceptions the modelled code can meet, all subclasses of \<open>Exception\<close>: a function
  that may raise returns \<open>py_error + 'a\<close>, with \<open>Inl\<close> for the raised exception.
  \<open>try_except body handler\<close> is \<open>try: body except Exception: handler\<close>.
\<close>

datatype py_error = TypeError | OverflowError | ZstdError | JSONDecodeError | OperationalError

definition try_except :: "py_error + 'a \<Rightarrow> (py_error \<Rightarrow> py_error + 'a) \<Rightarrow> py_error + 'a" where
  "try_except body handler = (case body of Inl e \<Rightarrow> handler e | Inr v \<Rightarrow> Inr v)"

type_synonym bytes = "8 word list"

text \<open>A value as \<open>json.loads\<close> returns it; the empty structured value is \<open>JObject []\<close>.\<close>

datatype json =
    JNull
  | JBool bool
  | JNumber int
  | JString string
  | JArray "json list"
  | JObject "(string \<times> json) list"

section \<open>Python string operations used by the services\<close>

text \<open>
  \<open>str.split(sep)\<close> with a one-character separator: the result is never empty, and an
  empty string gives one empty segment.
\<close>

fun str_split :: "char \<Rightarrow> string \<Rightarrow> string list" where
  "str_split sep [] = [[]]"
| "str_split sep (c # cs) =
     (if c = sep then [] # str_split sep cs
      else (case str_split sep cs of
              [] \<Rightarrow> [[c]]
            | p # ps \<Rightarrow> (c # p) # ps))"

text \<open>\<open>sep.join(parts)\<close>.\<close>

fun str_join :: "char \<Rightarrow> string list \<Rightarrow> string" where
  "str_join sep [] = []"
| "str_join sep [p] = p"
| "str_join sep (p # q # ps) = p @ sep # str_join sep (q # ps)"

text \<open>\<open>s.startswith(pre)\<close>, \<open>s.endswith(c)\<close> for one character, and \<open>sub in s\<close>.\<close>

fun startswith :: "string \<Rightarrow> string \<Rightarrow> bool" where
  "startswith s [] = True"
| "startswith [] (p # ps) = False"
| "startswith (c # cs) (p # ps) = (c = p \<and> startswith cs ps)"

definition endswith :: "string \<Rightarrow> char \<Rightarrow> bool" where
  "endswith s c = (s \<noteq> [] \<and> last s = c)"

fun contains :: "string \<Rightarrow> string \<Rightarrow> bool" where
  "contains [] sub = (sub = [])"
| "contains (c # cs) sub = (startswith (c # cs) sub \<or> contains cs sub)"

section \<open>API service: archive index (\<open>get_zip_index\<close>)\<close>

text \<open>
  The index is a Python dict from request path to the path inside the archive. The body of
  the loop over \<open>namelist\<close> for one non-directory name, assignment by assignment: a
  later assignment to the same key replaces the earlier one.
\<close>

definition index_name :: "(string \<rightharpoonup> string) \<Rightarrow> string \<Rightarrow> (string \<rightharpoonup> string)" where
  "index_name index name =
     (let index1 = index(name \<mapsto> name);
          filename = last (str_split CHR ''/'' name);
          index2 = (if filename \<noteq> [] then index1(filename \<mapsto> name) else index1);
          parts = str_split CHR ''/'' name
      in if length parts > 1
         then (let short_path = str_join CHR ''/'' (drop 1 parts);
                   index3 = index2(short_path \<mapsto> name)
               in if length parts > 2
                  then (let short_path2 = str_join CHR ''/'' (drop 2 parts)
                        in index3(short_path2 \<mapsto> name))
                  else index3)
         else index2)"

text \<open>
  The loop: directory names (ending in a slash) are skipped, every other name is counted
  and indexed. The state is the pair of the index and \<open>file_count\<close>.
\<close>

fun index_loop :: "(string \<rightharpoonup> string) \<times> nat \<Rightarrow> string list \<Rightarrow> (string \<rightharpoonup> string) \<times> nat" where
  "index_loop st [] = st"
| "index_loop (index, file_count) (name # names) =
     (if endswith name CHR ''/'' then index_loop (index, file_count) names
      else index_loop (index_name index name, file_count + 1) names)"

definition build_zip_index :: "string list \<Rightarrow> (string \<rightharpoonup> string)" where
  "build_zip_index namelist = fst (index_loop (Map.empty, 0) namelist)"

text \<open>
  The keys one name is stored under, in the order the loop body assigns them: the full
  path, the final segment when it is not empty, the path without its first segment when
  there are at least two segments, and without its first two when there are at least three.
\<close>

definition name_keys :: "string \<Rightarrow> string list" where
  "name_keys name =
     (let parts = str_split CHR ''/'' name
      in [name]
         @ (if last parts \<noteq> [] then [last parts] else [])
         @ (if length parts > 1 then [str_join CHR ''/'' (drop 1 parts)] else [])
         @ (if length parts > 2 then [str_join CHR ''/'' (drop 2 parts)] else []))"

text \<open>
  The keys as the specification lists them for an entry: identity, basename, tail-1 and
  tail-2 (named after the specification, to be compared with \<open>name_keys\<close>).
\<close>

definition spec_keys :: "string \<Rightarrow> string list" where
  "spec_keys name =
     (let segments = str_split CHR ''/'' name
      in [name, last segments]
         @ (if length segments \<ge> 2 then [str_join CHR ''/'' (tl segments)] else [])
         @ (if length segments \<ge> 3 then [str_join CHR ''/'' (tl (tl segments))] else []))"

text \<open>The names of the archive that are files, in enumeration order.\<close>

definition file_names :: "string list \<Rightarrow> string list" where
  "file_names namelist = filter (\<lambda>n. \<not> endswith n CHR ''/'') namelist"

text \<open>
  The earliest and the latest file entry, in enumeration order, that produces a given key.
\<close>

definition first_producer :: "string \<Rightarrow> string list \<Rightarrow> string option" where
  "first_producer k namelist = find (\<lambda>n. k \<in> set (name_keys n)) (file_names namelist)"

definition last_producer :: "string \<Rightarrow> string list \<Rightarrow> string option" where
  "last_producer k namelist = find (\<lambda>n. k \<in> set (name_keys n)) (rev (file_names namelist))"

section \<open>User service: version ledger and update manifest\<close>

text \<open>
  A row of the table \<open>version_history\<close>, as \<open>record_version\<close> writes it. The column
  \<open>entry_id\<close> is nullable: a \<open>file\<close> row leaves it NULL (\<open>None\<close>), an \<open>entry\<close> row
  holds the integer identifier. The table is the list of its rows in insertion order.
\<close>

record ledger_row =
  dict_id :: string
  version :: int
  message :: string
  change_type :: string
  file_name :: string
  entry_id :: "int option"

text \<open>\<open>SELECT MAX(version)\<close>: NULL over no rows, else the greatest value.\<close>

fun sql_max :: "int list \<Rightarrow> int option" where
  "sql_max [] = None"
| "sql_max (v # vs) = Some (fold max vs v)"

text \<open>\<open>next_version\<close>: \<open>(row[0] or 0) + 1\<close>, where \<open>or\<close> replaces both NULL and 0 by 0.\<close>

definition next_version :: "ledger_row list \<Rightarrow> string \<Rightarrow> int" where
  "next_version table d =
     (case sql_max (map version (filter (\<lambda>r. dict_id r = d) table)) of
        None \<Rightarrow> 0
      | Some v \<Rightarrow> (if v = 0 then 0 else v)) + 1"

text \<open>
  A Python integer can be bound to a parameter of an SQLite statement when it fits the
  64-bit signed INTEGER of SQLite; otherwise \<open>execute\<close> raises \<open>OverflowError\<close>.
\<close>

definition sqlite_integer :: "int \<Rightarrow> bool" where
  "sqlite_integer n = (- 9223372036854775808 \<le> n \<and> n \<le> 9223372036854775807)"

text \<open>
  The query of \<open>_compute_required_files\<close>, with \<open>from_ver\<close> and \<open>to_ver\<close> bound as
  parameters: the rows of one dictionary with \<open>from_ver < version \<le> to_ver\<close>, ordered by
  ascending version. Rows of one batch share a version; the sort is stable, so they stay in
  insertion order.
\<close>

definition select_window ::
    "ledger_row list \<Rightarrow> string \<Rightarrow> int \<Rightarrow> int \<Rightarrow> py_error + ledger_row list" where
  "select_window table d from_ver to_ver =
     (if sqlite_integer from_ver \<and> sqlite_integer to_ver
      then Inr (sort_key version
                 (filter (\<lambda>r. dict_id r = d \<and> version r > from_ver \<and> version r \<le> to_ver) table))
      else Inl OverflowError)"

text \<open>
  \<open>entries_needed[k] = None\<close> on an insertion-ordered dict, seen as the list of its keys:
  a key already present keeps its position, a new key goes to the end.
\<close>

definition dict_set :: "int list \<Rightarrow> int \<Rightarrow> int list" where
  "dict_set keys k = (if k \<in> set keys then keys else keys @ [k])"

text \<open>
  The loop over the rows. The state is \<open>files_needed\<close> (a set) and the keys of
  \<open>entries_needed\<close>. \<open>int(r["entry_id"])\<close> raises \<open>TypeError\<close> on NULL.
\<close>

fun scan_rows :: "string set \<times> int list \<Rightarrow> ledger_row list \<Rightarrow> py_error + string set \<times> int list" where
  "scan_rows st [] = Inr st"
| "scan_rows (files_needed, entries_needed) (r # rows) =
     (if change_type r = ''file''
      then scan_rows (insert (file_name r) files_needed,
                      if file_name r = ''dictionary.db'' then [] else entries_needed) rows
      else if change_type r = ''entry''
      then (case entry_id r of
              None \<Rightarrow> Inl TypeError
            | Some i \<Rightarrow> scan_rows (files_needed, dict_set entries_needed i) rows)
      else scan_rows (files_needed, entries_needed) rows)"

record manifest =
  files :: "string list"
  entries :: "int list"

text \<open>\<open>_compute_required_files\<close>: \<open>sorted\<close> of the set, and the keys of the dict.\<close>

definition compute_required_files ::
    "ledger_row list \<Rightarrow> string \<Rightarrow> int \<Rightarrow> int \<Rightarrow> py_error + manifest" where
  "compute_required_files table d from_ver to_ver =
     (case select_window table d from_ver to_ver of
        Inl e \<Rightarrow> Inl e
      | Inr rows \<Rightarrow>
          (case scan_rows ({}, []) rows of
             Inl e \<Rightarrow> Inl e
           | Inr (files_needed, entries_needed) \<Rightarrow>
               Inr \<lparr>files = sorted_list_of_set files_needed, entries = entries_needed\<rparr>))"

text \<open>
  Vocabulary for stating what the scan computes: the rows of a dictionary inside a version
  window, the rows that replace the primary store, the rows after the last such
  replacement, the identifiers of the \<open>entry\<close> rows, and a list with duplicates collapsed
  to the first occurrence.
\<close>

definition in_window :: "string \<Rightarrow> int \<Rightarrow> int \<Rightarrow> ledger_row \<Rightarrow> bool" where
  "in_window d from_ver to_ver r = (dict_id r = d \<and> from_ver < version r \<and> version r \<le> to_ver)"

definition is_db_replace :: "ledger_row \<Rightarrow> bool" where
  "is_db_replace r = (change_type r = ''file'' \<and> file_name r = ''dictionary.db'')"

definition since_last_replace :: "ledger_row list \<Rightarrow> ledger_row list" where
  "since_last_replace rows = rev (takeWhile (\<lambda>r. \<not> is_db_replace r) (rev rows))"

definition entry_ids :: "ledger_row list \<Rightarrow> int list" where
  "entry_ids rows =
     List.map_filter (\<lambda>r. if change_type r = ''entry'' then entry_id r else None) rows"

definition file_targets :: "ledger_row list \<Rightarrow> string set" where
  "file_targets rows = set (map file_name (filter (\<lambda>r. change_type r = ''file'') rows))"

definition first_seen :: "int list \<Rightarrow> int list" where
  "first_seen xs = rev (remdups (rev xs))"

definition entry_rows_have_id :: "ledger_row list \<Rightarrow> bool" where
  "entry_rows_have_id rows = list_all (\<lambda>r. change_type r = ''entry'' \<longrightarrow> entry_id r \<noteq> None) rows"

text \<open>
  The ledger of the specification's scenario for dictionary \<open>en-fr\<close>: a first batch of
  two files, a batch of entry patches (one identifier patched twice), and a replacement of
  the primary store.
\<close>

definition ledger_row_of :: "int \<Rightarrow> string \<Rightarrow> string \<Rightarrow> int option \<Rightarrow> ledger_row" where
  "ledger_row_of v kind target eid =
     \<lparr>dict_id = ''en-fr'', version = v, message = ''update'', change_type = kind,
      file_name = target, entry_id = eid\<rparr>"

definition example_ledger :: "ledger_row list" where
  "example_ledger =
     [ledger_row_of 1 ''file'' ''metadata.json'' None,
      ledger_row_of 1 ''file'' ''dictionary.db'' None,
      ledger_row_of 2 ''entry'' ''dictionary.db'' (Some 42),
      ledger_row_of 2 ''entry'' ''dictionary.db'' (Some 43),
      ledger_row_of 2 ''entry'' ''dictionary.db'' (Some 42),
      ledger_row_of 3 ''file'' ''dictionary.db'' None]"

section \<open>Compression codec: \<open>compress_entry\<close>, \<open>get_zstd_decompressor\<close>, \<open>decompress_json_data\<close>\<close>


datatype zstd_dctx = ZstdDecompressor "bytes option"


definition seeded_decompressor :: "(bytes \<Rightarrow> bool) \<Rightarrow> bytes \<Rightarrow> py_error + zstd_dctx" where
  "seeded_decompressor accepts blob =
     (if accepts blob then Inr (ZstdDecompressor (Some blob)) else Inl ZstdError)"


text \<open>
  The outcome of \<open>SELECT value FROM config WHERE key = 'zstd_dict'\<close> followed by
  \<open>fetchone()\<close> on an open connection: an exception, no row, or a row whose value is NULL
  or a blob. \<open>get_db_connection\<close> gives \<open>None\<close> when the dictionary database does not
  exist or cannot be opened; an open connection is represented by what the query returns.
\<close>

type_synonym config_query = "py_error + bytes option option"

text \<open>
  \<open>get_zstd_decompressor\<close>, with the cache \<open>_zstd_decompressors\<close> passed in and returned.
  The query and the two constructors are inside one \<open>try\<close>: whatever raises there is
  logged, and the function goes on to the plain decompressor.
\<close>

definition get_zstd_decompressor ::
    "(bytes \<Rightarrow> bool) \<Rightarrow> (string \<Rightarrow> config_query option) \<Rightarrow> (string \<rightharpoonup> zstd_dctx) \<Rightarrow> string
      \<Rightarrow> zstd_dctx option \<times> (string \<rightharpoonup> zstd_dctx)" where
  "get_zstd_decompressor accepts get_db_connection cache d =
     (case cache d of
        Some dctx \<Rightarrow> (Some dctx, cache)
      | None \<Rightarrow>
          (case get_db_connection d of
             None \<Rightarrow> (None, cache)
           | Some query \<Rightarrow>
               (let plain = ZstdDecompressor None;
                    fallback = (Some plain, cache(d \<mapsto> plain))
                in case query of
                     Inl e \<Rightarrow> fallback
                   | Inr None \<Rightarrow> fallback
                   | Inr (Some None) \<Rightarrow> fallback
                   | Inr (Some (Some blob)) \<Rightarrow>
                       if blob \<noteq> []
                       then (case seeded_decompressor accepts blob of
                               Inl e \<Rightarrow> fallback
                             | Inr dctx \<Rightarrow> (Some dctx, cache(d \<mapsto> dctx)))
                       else fallback)))"

text \<open>
  \<open>decompress_json_data\<close>: \<open>data\<close> may be \<open>None\<close>, \<open>dctx\<close> may be \<open>None\<close>; a failed
  decompression leaves \<open>raw\<close> as it was (\<open>pass\<close>), a failed parse returns \<open>{}\<close>.
\<close>

definition decompress_json_data ::
    "(zstd_dctx \<Rightarrow> bytes \<Rightarrow> py_error + bytes) \<Rightarrow> (bytes \<Rightarrow> py_error + json)
      \<Rightarrow> bytes option \<Rightarrow> zstd_dctx option \<Rightarrow> py_error + json" where
  "decompress_json_data decompress loads data dctx =
     (case data of
        None \<Rightarrow> Inr (JObject [])
      | Some raw0 \<Rightarrow>
          (case (case dctx of
                   None \<Rightarrow> Inr raw0
                 | Some ctx \<Rightarrow> try_except (decompress ctx raw0) (\<lambda>e. Inr raw0)) of
             Inl e \<Rightarrow> Inl e
           | Inr raw \<Rightarrow> try_except (loads raw) (\<lambda>e. Inr (JObject []))))"


text \<open>
  A small instance of the library interface, on which the theorems below are run: a frame
  is a magic byte, a byte telling whether a dictionary was used, and the payload; a
  dictionary of eight bytes or more that starts with the magic number of a structured
  dictionary (\<open>37 A4 30 EC\<close>) is refused, as the instance knows no structured
  dictionaries; the parser knows the two texts \<open>null\<close> and \<open>{}\<close>.
\<close>

definition frame_accepts :: "bytes \<Rightarrow> bool" where
  "frame_accepts blob = (\<not> (length blob \<ge> 8 \<and> take 4 blob = [0x37, 0xA4, 0x30, 0xEC]))"

definition corrupt_dictionary :: bytes where
  "corrupt_dictionary = [0x37, 0xA4, 0x30, 0xEC, 0, 0, 0, 0]"


definition frame_decompress :: "zstd_dctx \<Rightarrow> bytes \<Rightarrow> py_error + bytes" where
  "frame_decompress dctx frame =
     (case dctx of ZstdDecompressor zd \<Rightarrow>
        (case frame of
           magic # flag # data \<Rightarrow>
             if magic = 0x28 \<and> flag = (if zd = None then 0 else 1) then Inr data else Inl ZstdError
         | _ \<Rightarrow> Inl ZstdError))"


definition small_loads :: "bytes \<Rightarrow> py_error + json" where
  "small_loads b =
     (if b = [0x6E, 0x75, 0x6C, 0x6C] then Inr JNull
      else if b = [0x7B, 0x7D] then Inr (JObject [])
      else Inl JSONDecodeError)"

text \<open>
  Three states of the world for \<open>get_zstd_decompressor\<close>: no dictionary database at
  all, every database holding the training blob \<open>[1, 2, 3]\<close>, and every database
  holding the corrupt dictionary; and the empty cache.
\<close>

definition corrupt_database :: "string \<Rightarrow> config_query option" where
  "corrupt_database d = Some (Inr (Some (Some corrupt_dictionary)))"

definition no_database :: "string \<Rightarrow> config_query option" where
  "no_database d = None"

definition trained_database :: "string \<Rightarrow> config_query option" where
  "trained_database d = Some (Inr (Some (Some [1, 2, 3])))"

definition empty_cache :: "string \<rightharpoonup> zstd_dctx" where
  "empty_cache = Map.empty"

section \<open>API service: auxiliary files (\<open>get_auxiliary_file\<close>)\<close>

text \<open>
  A path is the list of its components. \<open>path_parts\<close> is how \<open>pathlib\<close> reads a string:
  empty components and single dots are dropped, \<open>..\<close> is kept. \<open>path_div base s\<close> is
  \<open>base / s\<close>: a string that starts with a slash is absolute and replaces the base.
\<close>

definition path_parts :: "string \<Rightarrow> string list" where
  "path_parts s = filter (\<lambda>p. p \<noteq> [] \<and> p \<noteq> ''.'') (str_split CHR ''/'' s)"

definition path_div :: "string list \<Rightarrow> string \<Rightarrow> string list" where
  "path_div base s = (if startswith s ''/'' then path_parts s else base @ path_parts s)"

datatype http_error = HTTPException nat

record file_response =
  path :: "string list"
  filename :: string

text \<open>
  \<open>get_auxiliary_file\<close>. The file system is the two predicates \<open>exists\<close> and \<open>is_file\<close>
  on paths, \<open>aux\<close> is \<open>AUXILIARY_PATH\<close>. The exception carries its status code; the media
  type and the cache header of the response are left out.
\<close>

definition get_auxiliary_file ::
    "(string list \<Rightarrow> bool) \<Rightarrow> (string list \<Rightarrow> bool) \<Rightarrow> string list \<Rightarrow> string
      \<Rightarrow> http_error + file_response" where
  "get_auxiliary_file fs_exists fs_is_file aux name =
     (if contains name ''..'' \<or> startswith name ''/'' then Inl (HTTPException 400)
      else (let file_path = path_div aux name
            in if \<not> fs_exists file_path \<or> \<not> fs_is_file file_path
               then Inl (HTTPException 404)
               else Inr \<lparr>path = file_path, filename = name\<rparr>))"

text \<open>An auxiliary root holding the single file \<open>data/config.json\<close>.\<close>

definition aux_root :: "string list" where
  "aux_root = [''data'', ''auxiliary'']"

definition aux_has :: "string list \<Rightarrow> bool" where
  "aux_has p = (p = [''data'', ''auxiliary'', ''data'', ''config.json''])"

section \<open>API service: migration of an archive into the media database\<close>

text \<open>
  An entry of \<open>zf.filelist\<close>: its name and what \<open>is_dir()\<close> answers. A table of
  \<open>media.db\<close> (\<open>name TEXT PRIMARY KEY, blob BLOB\<close>) is a map from name to blob, and
  \<open>INSERT OR REPLACE\<close> is the update of the map. \<open>zf_read\<close> is \<open>zf.read\<close>, which may
  raise.
\<close>

record zip_info =
  zi_filename :: string
  zi_is_dir :: bool

text \<open>
  The loop of \<open>migrate_zip_to_media_db\<close> over one archive (the same in the service and in
  the migration script, for audios and for images): directories are skipped, every other
  entry is stored under \<open>file_name.split('/')[-1]\<close>. An exception leaves the loop.
\<close>

fun migrate_filelist ::
    "(string \<Rightarrow> py_error + bytes) \<Rightarrow> (string \<rightharpoonup> bytes) \<Rightarrow> zip_info list
      \<Rightarrow> py_error + (string \<rightharpoonup> bytes)" where
  "migrate_filelist zf_read table [] = Inr table"
| "migrate_filelist zf_read table (file_info # rest) =
     (if zi_is_dir file_info then migrate_filelist zf_read table rest
      else (let file_name = zi_filename file_info;
                simple_name = last (str_split CHR ''/'' file_name)
            in case zf_read file_name of
                 Inl e \<Rightarrow> Inl e
               | Inr file_data \<Rightarrow>
                   migrate_filelist zf_read (table(simple_name \<mapsto> file_data)) rest))"

text \<open>
  The branch of \<open>get_audio_file\<close> and \<open>get_image_file\<close> taken when \<open>media.db\<close>
  exists: \<open>SELECT blob FROM audios WHERE name = ?\<close> with the request path, 404 without a
  row.
\<close>

definition media_db_lookup :: "(string \<rightharpoonup> bytes) \<Rightarrow> string \<Rightarrow> http_error + bytes" where
  "media_db_lookup table file_path =
     (case table file_path of
        None \<Rightarrow> Inl (HTTPException 404)
      | Some blob_data \<Rightarrow> Inr blob_data)"

text \<open>
  Vocabulary for stating what a migration leaves in the table: the last non-directory
  entry, in enumeration order, whose basename is a given name, and the content read for
  an entry.
\<close>

definition last_with_basename :: "string \<Rightarrow> zip_info list \<Rightarrow> zip_info option" where
  "last_with_basename name filelist =
     find (\<lambda>fi. last (str_split CHR ''/'' (zi_filename fi)) = name)
       (rev (filter (\<lambda>fi. \<not> zi_is_dir fi) filelist))"

definition stored_content :: "(string \<Rightarrow> py_error + bytes) \<Rightarrow> zip_info \<Rightarrow> bytes option" where
  "stored_content zf_read fi =
     (case zf_read (zi_filename fi) of Inl e \<Rightarrow> None | Inr file_data \<Rightarrow> Some file_data)"

text \<open>
  An archive with two files of the same basename and different contents, and the table
  its migration ends with.
\<close>

definition collide_filelist :: "zip_info list" where
  "collide_filelist =
     [\<lparr>zi_filename = ''a/x.mp3'', zi_is_dir = False\<rparr>,
      \<lparr>zi_filename = ''b/x.mp3'', zi_is_dir = False\<rparr>]"

definition collide_read :: "string \<Rightarrow> py_error + bytes" where
  "collide_read name = (if name = ''a/x.mp3'' then Inr [1] else Inr [2])"

definition empty_table :: "string \<rightharpoonup> bytes" where
  "empty_table = Map.empty"

definition collide_table :: "string \<rightharpoonup> bytes" where
  "collide_table = empty_table(''x.mp3'' \<mapsto> [2])"

text \<open>An archive with one audio file below two directories, and its content.\<close>

definition example_filelist :: "zip_info list" where
  "example_filelist =
     [\<lparr>zi_filename = ''media/audios/'', zi_is_dir = True\<rparr>,
      \<lparr>zi_filename = ''media/audios/word1.mp3'', zi_is_dir = False\<rparr>]"

definition example_read :: "string \<Rightarrow> py_error + bytes" where
  "example_read name = Inr [0x49, 0x44, 0x33]"

section \<open>Properties of the string operations\<close>

lemma str_split_not_Nil: "str_split sep s \<noteq> []"
  by (induction s) (auto split: list.splits)

lemma str_split_no_sep: "p \<in> set (str_split sep s) \<Longrightarrow> sep \<notin> set p"
proof (induction s arbitrary: p)
  case Nil
  then show ?case by simp
next
  case (Cons c cs)
  show ?case
  proof (cases "c = sep")
    case True
    with Cons show ?thesis by auto
  next
    case False
    obtain q qs where q: "str_split sep cs = q # qs"
      using str_split_not_Nil [of sep cs] by (cases "str_split sep cs") auto
    with Cons False show ?thesis by auto
  qed
qed

lemma length_str_split:
  "length (str_split sep s) = Suc (length (filter (\<lambda>x. x = sep) s))"
  by (induction s) (auto split: list.splits simp: str_split_not_Nil)

lemma str_split_single: "str_split sep s = [q] \<Longrightarrow> sep \<notin> set s"
proof -
  assume "str_split sep s = [q]"
  then have "length (str_split sep s) = 1" by simp
  then have "filter (\<lambda>x. x = sep) s = []"
    by (simp add: length_str_split)
  then show ?thesis
    by (auto simp: filter_empty_conv)
qed

lemma last_str_split_Nil:
  "last (str_split sep s) = [] \<longleftrightarrow> s = [] \<or> last s = sep"
proof (induction s)
  case Nil
  then show ?case by simp
next
  case (Cons c cs)
  obtain q qs where q: "str_split sep cs = q # qs"
    using str_split_not_Nil [of sep cs] by (cases "str_split sep cs") auto
  show ?case
  proof (cases "c = sep")
    case True
    with Cons q show ?thesis by auto
  next
    case False
    show ?thesis
    proof (cases qs)
      case Nil
      with q have "sep \<notin> set cs" by (simp add: str_split_single)
      then have "cs \<noteq> [] \<Longrightarrow> last cs \<noteq> sep"
        using last_in_set by metis
      with False q Nil show ?thesis by auto
    next
      case (Cons r rs)
      with q have "cs \<noteq> []" by auto
      with False q Cons Cons.IH show ?thesis by auto
    qed
  qed
qed

lemma startswith_hd_str_split: "startswith s (hd (str_split sep s))"
proof (induction s)
  case Nil
  then show ?case by simp
next
  case (Cons c cs)
  obtain q qs where q: "str_split sep cs = q # qs"
    using str_split_not_Nil [of sep cs] by (cases "str_split sep cs") auto
  with Cons show ?case by auto
qed

lemma contains_Nil: "contains s []"
  by (cases s) simp_all

lemma str_split_contains: "p \<in> set (str_split sep s) \<Longrightarrow> contains s p"
proof (induction s)
  case Nil
  then show ?case by simp
next
  case (Cons c cs)
  obtain q qs where q: "str_split sep cs = q # qs"
    using str_split_not_Nil [of sep cs] by (cases "str_split sep cs") auto
  show ?case
  proof (cases "c = sep")
    case True
    with Cons show ?thesis by (auto simp: contains_Nil)
  next
    case False
    from startswith_hd_str_split [of cs sep] q have "startswith cs q" by simp
    with Cons False q show ?thesis by auto
  qed
qed

lemma last_str_split_no_sep: "sep \<notin> set (last (str_split sep s))"
  using str_split_no_sep [of "last (str_split sep s)" sep s] str_split_not_Nil [of sep s]
  by simp

section \<open>Properties of the archive index\<close>

lemma find_app:
  "find P (xs @ ys) = (case find P xs of Some y \<Rightarrow> Some y | None \<Rightarrow> find P ys)"
  by (induction xs) auto

lemma index_name_lookup:
  "index_name index name k = (if k \<in> set (name_keys name) then Some name else index k)"
  by (auto simp: index_name_def name_keys_def Let_def)

lemma index_loop_lookup:
  "fst (index_loop (index, c) names) k =
     (case find (\<lambda>n. k \<in> set (name_keys n)) (rev (file_names names)) of
        Some n \<Rightarrow> Some n
      | None \<Rightarrow> index k)"
proof (induction names arbitrary: index c)
  case Nil
  then show ?case by (simp add: file_names_def)
next
  case (Cons name names)
  show ?case
  proof (cases "endswith name CHR ''/''")
    case True
    then show ?thesis using Cons [of index c] by (simp add: file_names_def)
  next
    case False
    have step: "fst (index_loop (index, c) (name # names)) k =
                fst (index_loop (index_name index name, c + 1) names) k"
      using False by simp
    have files: "rev (file_names (name # names)) = rev (file_names names) @ [name]"
      using False by (simp add: file_names_def)
    show ?thesis
      unfolding step files Cons [of "index_name index name" "c + 1"] find_app
      by (simp add: index_name_lookup split: option.splits)
  qed
qed

lemma spec_keys_name_keys:
  "\<not> endswith name CHR ''/'' \<Longrightarrow> set (spec_keys name) = set (name_keys name)"
proof -
  assume nodir: "\<not> endswith name CHR ''/''"
  have "last (str_split CHR ''/'' name) = [] \<Longrightarrow> name = []"
    using nodir last_str_split_Nil [of "CHR ''/''" name] by (auto simp: endswith_def)
  then show ?thesis
    by (auto simp: spec_keys_def name_keys_def Let_def drop_Suc numeral_2_eq_2)
qed

text \<open>
  Claim C2, as the code has it. Every assignment \<open>index[key] = name\<close> replaces what the
  key held, so a key produced by several entries of the archive resolves to the last of
  them in enumeration order: the lookup of any key is the first match found when the
  file names are searched backwards.
\<close>

theorem zip_index_last_entry_wins:
  "build_zip_index namelist k = last_producer k namelist"
  by (simp add: build_zip_index_def last_producer_def index_loop_lookup split: option.splits)

text \<open>
  Claim C2 as stated fails: two entries with the same basename, enumerated as
  \<open>en/hello.mp3\<close> then \<open>fr/hello.mp3\<close>. The earliest entry producing the key
  \<open>hello.mp3\<close> is the first one, and the index resolves the key to the second.
\<close>

theorem zip_index_first_wins_counterexample:
  "first_producer ''hello.mp3'' [''en/hello.mp3'', ''fr/hello.mp3''] = Some ''en/hello.mp3''
   \<and> build_zip_index [''en/hello.mp3'', ''fr/hello.mp3''] ''hello.mp3'' = Some ''fr/hello.mp3''
   \<and> build_zip_index [''en/hello.mp3'', ''fr/hello.mp3''] ''hello.mp3'' \<noteq> Some ''en/hello.mp3''"
  by (simp add: build_zip_index_def index_name_def first_producer_def file_names_def
      name_keys_def endswith_def Let_def)

text \<open>
  Claim C3, amended. For a non-directory entry \<open>E\<close> of the archive, each of its keys (full
  path, basename, tail-1 with at least two segments, tail-2 with at least three) is present
  in the built index; it resolves to \<open>E\<close> itself whenever no file entry enumerated after
  \<open>E\<close> produces the same key.
\<close>

theorem zip_index_registers_keys:
  assumes "namelist = before @ E # after"
    and "\<not> endswith E CHR ''/''"
    and "k \<in> set (spec_keys E)"
  shows "build_zip_index namelist k \<noteq> None
         \<and> ((\<forall>n \<in> set (file_names after). k \<notin> set (name_keys n))
              \<longrightarrow> build_zip_index namelist k = Some E)"
proof -
  let ?P = "\<lambda>n. k \<in> set (name_keys n)"
  have k: "?P E"
    using assms(2,3) spec_keys_name_keys by blast
  have idx: "build_zip_index namelist k = find ?P (rev (file_names namelist))"
    by (simp add: build_zip_index_def index_loop_lookup split: option.splits)
  have files: "rev (file_names namelist)
               = rev (file_names after) @ E # rev (file_names before)"
    using assms(1,2) by (simp add: file_names_def)
  have "E \<in> set (rev (file_names namelist))"
    unfolding files by simp
  with k have present: "find ?P (rev (file_names namelist)) \<noteq> None"
    by (auto simp: find_None_iff)
  have "find ?P (rev (file_names namelist)) = Some E"
    if "\<forall>n \<in> set (file_names after). \<not> ?P n"
  proof -
    have "find ?P (rev (file_names after)) = None"
      using that by (simp add: find_None_iff)
    then show ?thesis
      unfolding files using k by (simp add: find_app)
  qed
  with present idx show ?thesis by simp
qed

text \<open>
  The scenario of the specification: the single entry \<open>media/audios/word1.mp3\<close> is
  reachable through \<open>audios/word1.mp3\<close> (and in the same way through its other keys).
\<close>

theorem zip_index_registers_keys_witness:
  "[''media/audios/word1.mp3''] = [] @ ''media/audios/word1.mp3'' # []
   \<and> \<not> endswith ''media/audios/word1.mp3'' CHR ''/''
   \<and> ''audios/word1.mp3'' \<in> set (spec_keys ''media/audios/word1.mp3'')
   \<and> file_names [] = []
   \<and> build_zip_index [''media/audios/word1.mp3''] ''audios/word1.mp3''
       = Some ''media/audios/word1.mp3''"
proof -
  have a: "[''media/audios/word1.mp3''] = [] @ ''media/audios/word1.mp3'' # []" by simp
  have b: "\<not> endswith ''media/audios/word1.mp3'' CHR ''/''" by (simp add: endswith_def)
  have c: "''audios/word1.mp3'' \<in> set (spec_keys ''media/audios/word1.mp3'')"
    by (simp add: spec_keys_def)
  have d: "\<forall>n \<in> set (file_names []). ''audios/word1.mp3'' \<notin> set (name_keys n)"
    by (simp add: file_names_def)
  have e: "file_names [] = []" by (simp add: file_names_def)
  from zip_index_registers_keys [OF a b c] d a b c e show ?thesis by blast
qed

text \<open>
  Claim C3 as stated fails when a later entry produces one of the keys of \<open>E\<close>: with
  \<open>a/x.mp3\<close> enumerated before \<open>b/x.mp3\<close>, the basename \<open>x.mp3\<close> of the first entry
  resolves to the second.
\<close>

theorem zip_index_registers_keys_counterexample:
  "''a/x.mp3'' \<in> set (file_names [''a/x.mp3'', ''b/x.mp3''])
   \<and> ''x.mp3'' \<in> set (spec_keys ''a/x.mp3'')
   \<and> build_zip_index [''a/x.mp3'', ''b/x.mp3''] ''x.mp3'' \<noteq> Some ''a/x.mp3''"
  by (simp add: build_zip_index_def index_name_def file_names_def spec_keys_def
      endswith_def Let_def)

section \<open>Properties of the version ledger and the update manifest\<close>

lemma remdups_snoc: "remdups (zs @ [x]) = remdups (filter (\<lambda>y. y \<noteq> x) zs) @ [x]"
  by (induction zs) auto

lemma first_seen_Nil: "first_seen [] = []"
  by (simp add: first_seen_def)

lemma first_seen_Cons: "first_seen (x # ys) = x # first_seen (filter (\<lambda>y. y \<noteq> x) ys)"
  by (simp add: first_seen_def remdups_snoc rev_filter)

lemma foldl_dict_set:
  "foldl dict_set keys ids = keys @ first_seen (filter (\<lambda>i. i \<notin> set keys) ids)"
proof (induction ids arbitrary: keys)
  case Nil
  then show ?case by (simp add: first_seen_Nil)
next
  case (Cons i ids)
  show ?case
  proof (cases "i \<in> set keys")
    case True
    then show ?thesis using Cons [of keys] by (simp add: dict_set_def)
  next
    case False
    have "filter (\<lambda>j. j \<notin> set (keys @ [i])) ids
          = filter (\<lambda>j. j \<noteq> i) (filter (\<lambda>j. j \<notin> set keys) ids)"
      by (induction ids) auto
    with False show ?thesis using Cons [of "keys @ [i]"]
      by (simp add: dict_set_def first_seen_Cons)
  qed
qed

lemma since_last_replace_none:
  "\<forall>x \<in> set rows. \<not> is_db_replace x \<Longrightarrow> since_last_replace rows = rows"
proof -
  assume "\<forall>x \<in> set rows. \<not> is_db_replace x"
  then have all: "takeWhile (\<lambda>r. \<not> is_db_replace r) (rev rows) = rev rows"
    by simp
  show ?thesis
    unfolding since_last_replace_def all by simp
qed

lemma since_last_replace_Cons:
  "since_last_replace (r # rows) =
     (if \<exists>x \<in> set rows. is_db_replace x then since_last_replace rows
      else if is_db_replace r then rows else r # rows)"
proof (cases "\<exists>x \<in> set rows. is_db_replace x")
  case True
  then obtain x where "x \<in> set (rev rows)" "\<not> \<not> is_db_replace x" by auto
  then have "takeWhile (\<lambda>r. \<not> is_db_replace r) (rev rows @ [r])
             = takeWhile (\<lambda>r. \<not> is_db_replace r) (rev rows)"
    by (rule takeWhile_append1)
  with True show ?thesis by (simp add: since_last_replace_def)
next
  case False
  then have "takeWhile (\<lambda>r. \<not> is_db_replace r) (rev rows @ [r])
             = rev rows @ takeWhile (\<lambda>r. \<not> is_db_replace r) [r]"
    by (intro takeWhile_append2) simp
  with False show ?thesis by (simp add: since_last_replace_def)
qed

lemma entry_ids_Cons:
  "entry_ids (r # rows) =
     (if change_type r = ''entry'' then (case entry_id r of None \<Rightarrow> entry_ids rows | Some i \<Rightarrow> i # entry_ids rows)
      else entry_ids rows)"
  by (simp add: entry_ids_def map_filter_simps split: option.splits)

lemma scan_rows_closed:
  "entry_rows_have_id rows \<Longrightarrow>
   scan_rows (fs, es) rows =
     Inr (fs \<union> file_targets rows,
          if \<exists>x \<in> set rows. is_db_replace x
          then first_seen (entry_ids (since_last_replace rows))
          else foldl dict_set es (entry_ids rows))"
proof (induction rows arbitrary: fs es)
  case Nil
  then show ?case by (simp add: file_targets_def entry_ids_def map_filter_simps)
next
  case (Cons r rows)
  from Cons.prems have rest: "entry_rows_have_id rows"
    by (simp add: entry_rows_have_id_def)
  note IH = Cons.IH [OF rest]
  have empty: "foldl dict_set [] (entry_ids rows) = first_seen (entry_ids rows)"
    by (simp add: foldl_dict_set)
  consider (db) "change_type r = ''file''" "file_name r = ''dictionary.db''"
    | (other_file) "change_type r = ''file''" "file_name r \<noteq> ''dictionary.db''"
    | (entry) "change_type r = ''entry''"
    | (ignored) "change_type r \<noteq> ''file''" "change_type r \<noteq> ''entry''"
    by blast
  then show ?case
  proof cases
    case db
    then show ?thesis
      using IH [of "insert (file_name r) fs" "[]"] empty
      by (auto simp: file_targets_def is_db_replace_def since_last_replace_Cons
          since_last_replace_none)
  next
    case other_file
    then show ?thesis
      using IH [of "insert (file_name r) fs" es]
      by (auto simp: file_targets_def is_db_replace_def since_last_replace_Cons entry_ids_Cons)
  next
    case entry
    with Cons.prems obtain i where i: "entry_id r = Some i"
      by (auto simp: entry_rows_have_id_def)
    with entry show ?thesis
      using IH [of fs "dict_set es i"]
      by (auto simp: file_targets_def is_db_replace_def since_last_replace_Cons entry_ids_Cons)
  next
    case ignored
    then show ?thesis
      using IH [of fs es]
      by (auto simp: file_targets_def is_db_replace_def since_last_replace_Cons entry_ids_Cons)
  qed
qed

lemma first_seen_distinct: "distinct (first_seen xs)"
  by (simp add: first_seen_def)

lemma first_seen_set: "set (first_seen xs) = set xs"
  by (simp add: first_seen_def)

text \<open>
  Claim C1, amended. For a window whose bounds fit the 64-bit integers of SQLite, the rows
  scanned are exactly the ledger rows of the dictionary with
  \<open>from_ver < version \<le> to_ver\<close>, in ascending version order, rows of one version in
  insertion order. The manifest is: as files, the sorted set of the targets of the
  \<open>file\<close> rows; as entries, the identifiers of the \<open>entry\<close> rows that come after the last
  replacement of \<open>dictionary.db\<close> (a replacement clears what was accumulated), each once,
  at the position of its first occurrence. Every \<open>entry\<close> row of the window is assumed
  to carry its identifier, as the rows written by \<open>record_version\<close> do.
\<close>

theorem manifest_scan:
  assumes "sqlite_integer from_ver" and "sqlite_integer to_ver"
    and "\<forall>r \<in> set table. in_window d from_ver to_ver r \<and> change_type r = ''entry''
           \<longrightarrow> entry_id r \<noteq> None"
  shows "\<exists>rows.
           set rows = {r \<in> set table. in_window d from_ver to_ver r}
         \<and> sorted (map version rows)
         \<and> (\<forall>v. filter (\<lambda>r. version r = v) rows
                  = filter (\<lambda>r. version r = v \<and> in_window d from_ver to_ver r) table)
         \<and> compute_required_files table d from_ver to_ver =
             Inr \<lparr>files = sorted_list_of_set (file_targets rows),
                  entries = first_seen (entry_ids (since_last_replace rows))\<rparr>"
proof -
  define rows where
    "rows = sort_key version (filter (in_window d from_ver to_ver) table)"
  have window: "(\<lambda>r. dict_id r = d \<and> version r > from_ver \<and> version r \<le> to_ver)
                = in_window d from_ver to_ver"
    by (auto simp: in_window_def)
  have sel: "select_window table d from_ver to_ver = Inr rows"
    using assms(1,2) by (simp add: select_window_def rows_def window)
  have members: "set rows = {r \<in> set table. in_window d from_ver to_ver r}"
    by (auto simp: rows_def)
  have ascending: "sorted (map version rows)"
    by (simp add: rows_def)
  have stable: "filter (\<lambda>r. version r = v) rows
                = filter (\<lambda>r. version r = v \<and> in_window d from_ver to_ver r) table" for v
  proof -
    have "filter (\<lambda>r. version r = v) rows
          = filter (\<lambda>r. version r = v) (filter (in_window d from_ver to_ver) table)"
      unfolding rows_def by (rule sort_key_stable)
    also have "\<dots> = filter (\<lambda>r. version r = v \<and> in_window d from_ver to_ver r) table"
      by (simp add: conj_commute)
    finally show ?thesis .
  qed
  from assms(3) members have wf: "entry_rows_have_id rows"
    by (auto simp: entry_rows_have_id_def list_all_iff)
  have "foldl dict_set [] (entry_ids rows) = first_seen (entry_ids rows)"
    by (simp add: foldl_dict_set)
  moreover have "\<not> (\<exists>x \<in> set rows. is_db_replace x) \<Longrightarrow> since_last_replace rows = rows"
    by (simp add: since_last_replace_none)
  ultimately have "scan_rows ({}, []) rows =
      Inr (file_targets rows, first_seen (entry_ids (since_last_replace rows)))"
    using scan_rows_closed [OF wf, of "{}" "[]"] by auto
  then have "compute_required_files table d from_ver to_ver =
             Inr \<lparr>files = sorted_list_of_set (file_targets rows),
                  entries = first_seen (entry_ids (since_last_replace rows))\<rparr>"
    by (simp add: compute_required_files_def sel)
  with members ascending stable show ?thesis by blast
qed

theorem manifest_scan_witness:
  "compute_required_files example_ledger ''en-fr'' 0 2 =
     Inr \<lparr>files = [''dictionary.db'', ''metadata.json''], entries = [42, 43]\<rparr>"
proof -
  have lo: "sqlite_integer 0" and hi: "sqlite_integer 2"
    by (simp_all add: sqlite_integer_def)
  have ids: "\<forall>r \<in> set example_ledger. in_window ''en-fr'' 0 2 r \<and> change_type r = ''entry''
               \<longrightarrow> entry_id r \<noteq> None"
    by (simp add: example_ledger_def ledger_row_of_def)
  from manifest_scan [OF lo hi ids] show ?thesis
    by (simp add: compute_required_files_def select_window_def sqlite_integer_def
        example_ledger_def ledger_row_of_def dict_set_def)
qed

text \<open>
  Claim C1 as stated fails for a window whose upper bound does not fit a 64-bit integer:
  binding it to the query raises \<open>OverflowError\<close>, and no manifest is computed.
\<close>

theorem manifest_scan_counterexample:
  "compute_required_files example_ledger ''en-fr'' 0 9223372036854775808 = Inl OverflowError"
  by (simp add: compute_required_files_def select_window_def sqlite_integer_def)

text \<open>
  Outside the hypothesis of the theorem: an \<open>entry\<close> row whose identifier is NULL makes
  the conversion \<open>int(r["entry_id"])\<close> raise, and no manifest is returned.
\<close>

lemma manifest_scan_null_entry_id:
  "compute_required_files [ledger_row_of 1 ''entry'' ''dictionary.db'' None] ''en-fr'' 0 1
   = Inl TypeError"
  by (simp add: compute_required_files_def select_window_def sqlite_integer_def ledger_row_of_def)

text \<open>
  Claim C7, amended. When the two versions fit the 64-bit integers of SQLite and
  \<open>from_version \<ge> to_version\<close>, no row lies in the window and the manifest is returned
  with both collections empty; no error is raised.
\<close>

theorem manifest_empty_window:
  assumes "sqlite_integer from_ver" and "sqlite_integer to_ver" and "from_ver \<ge> to_ver"
  shows "compute_required_files table d from_ver to_ver = Inr \<lparr>files = [], entries = []\<rparr>"
proof -
  from assms(3)
  have "filter (\<lambda>r. dict_id r = d \<and> version r > from_ver \<and> version r \<le> to_ver) table = []"
    by (auto simp: filter_empty_conv)
  with assms(1,2) show ?thesis
    by (simp add: compute_required_files_def select_window_def)
qed

theorem manifest_empty_window_witness:
  "sqlite_integer 3 \<and> (3::int) \<ge> 3
   \<and> compute_required_files example_ledger ''en-fr'' 3 3 = Inr \<lparr>files = [], entries = []\<rparr>"
proof -
  have r: "sqlite_integer 3" by (simp add: sqlite_integer_def)
  have h: "(3::int) \<ge> 3" by simp
  from manifest_empty_window [OF r r h] r h show ?thesis by blast
qed

text \<open>
  Claim C7 as stated fails for equal versions beyond the 64-bit range: the query raises
  \<open>OverflowError\<close> before any row is read, where the claim promises an empty manifest.
\<close>

theorem manifest_empty_window_counterexample:
  "(9223372036854775808::int) \<ge> 9223372036854775808
   \<and> compute_required_files example_ledger ''en-fr'' 9223372036854775808 9223372036854775808
       = Inl OverflowError"
  by (simp add: compute_required_files_def select_window_def sqlite_integer_def)

lemma sql_max_Max: "vs \<noteq> [] \<Longrightarrow> sql_max vs = Some (Max (set vs))"
proof (cases vs)
  case Nil
  assume "vs \<noteq> []"
  with Nil show ?thesis by simp
next
  case (Cons v rest)
  have "Max (set (v # rest)) = fold max rest v"
    by (rule Max.set_eq_fold)
  with Cons show ?thesis by simp
qed

text \<open>
  Claim C8. \<open>next_version\<close> is 1 for a dictionary without ledger rows, and otherwise one
  more than the greatest version among the rows of the dictionary.
\<close>

theorem next_version_spec:
  "((\<forall>r \<in> set table. dict_id r \<noteq> d) \<longrightarrow> next_version table d = 1)
   \<and> ((\<exists>r \<in> set table. dict_id r = d) \<longrightarrow>
        next_version table d = Max (version ` {r \<in> set table. dict_id r = d}) + 1)"
proof -
  let ?vs = "map version (filter (\<lambda>r. dict_id r = d) table)"
  have none: "?vs = []" if "\<forall>r \<in> set table. dict_id r \<noteq> d"
    using that by (auto simp: filter_empty_conv)
  have some: "sql_max ?vs = Some (Max (version ` {r \<in> set table. dict_id r = d}))"
    if "\<exists>r \<in> set table. dict_id r = d"
  proof -
    from that have "?vs \<noteq> []" by (auto simp: filter_empty_conv)
    moreover have "set ?vs = version ` {r \<in> set table. dict_id r = d}" by auto
    ultimately show ?thesis using sql_max_Max [of ?vs] by simp
  qed
  show ?thesis
    using none some by (auto simp: next_version_def)
qed

theorem next_version_spec_witness:
  "next_version example_ledger ''en-fr'' = 4 \<and> next_version example_ledger ''de-en'' = 1"
proof -
  have some: "\<exists>r \<in> set example_ledger. dict_id r = ''en-fr''"
    by (simp add: example_ledger_def ledger_row_of_def)
  have none: "\<forall>r \<in> set example_ledger. dict_id r \<noteq> ''de-en''"
    by (simp add: example_ledger_def ledger_row_of_def)
  have "{r \<in> set example_ledger. dict_id r = ''en-fr''} = set example_ledger"
    by (auto simp: example_ledger_def ledger_row_of_def)
  then have "version ` {r \<in> set example_ledger. dict_id r = ''en-fr''}
             = set (map version example_ledger)"
    by simp
  also have "\<dots> = {1, 2, 3}"
    by (auto simp: example_ledger_def ledger_row_of_def)
  finally have "Max (version ` {r \<in> set example_ledger. dict_id r = ''en-fr''}) = 3"
    by simp
  with next_version_spec [of example_ledger "''en-fr''"]
    next_version_spec [of example_ledger "''de-en''"] some none
  show ?thesis by simp
qed

section \<open>Properties of the compression codec\<close>

lemma try_except_Inr: "try_except body (\<lambda>e. Inr x) = Inr (case body of Inl e \<Rightarrow> x | Inr v \<Rightarrow> v)"
  by (simp add: try_except_def split: sum.splits)

lemma decompress_json_data_no_ctx:
  "decompress_json_data decompress loads (Some raw) None
   = Inr (case loads raw of Inl e \<Rightarrow> JObject [] | Inr v \<Rightarrow> v)"
  by (simp add: decompress_json_data_def try_except_Inr)

lemma decompress_json_data_ctx:
  "decompress_json_data decompress loads (Some raw) (Some ctx)
   = Inr (case loads (case decompress ctx raw of Inl e \<Rightarrow> raw | Inr out \<Rightarrow> out) of
            Inl e \<Rightarrow> JObject [] | Inr v \<Rightarrow> v)"
  by (simp add: decompress_json_data_def try_except_Inr)

text \<open>
  Claim C4. \<open>decompress_json_data\<close> returns a value for every input and never an
  exception: a missing blob gives the empty object; with a decompressor, the decompressed
  bytes are parsed when decompression succeeds and the input bytes themselves when it
  fails (or when there is no decompressor); a failed parse gives the empty object.
\<close>

theorem decompress_json_data_total:
  "(\<exists>v. decompress_json_data decompress loads data dctx = Inr v)
   \<and> decompress_json_data decompress loads None dctx = Inr (JObject [])
   \<and> (decompress ctx raw = Inr out \<longrightarrow>
        decompress_json_data decompress loads (Some raw) (Some ctx)
        = Inr (case loads out of Inl e \<Rightarrow> JObject [] | Inr v \<Rightarrow> v))
   \<and> (decompress ctx raw = Inl err \<longrightarrow>
        decompress_json_data decompress loads (Some raw) (Some ctx)
        = Inr (case loads raw of Inl e \<Rightarrow> JObject [] | Inr v \<Rightarrow> v))
   \<and> decompress_json_data decompress loads (Some raw) None
        = Inr (case loads raw of Inl e \<Rightarrow> JObject [] | Inr v \<Rightarrow> v)"
proof -
  have "\<exists>v. decompress_json_data decompress loads data dctx = Inr v"
  proof (cases data)
    case None
    then show ?thesis by (simp add: decompress_json_data_def)
  next
    case (Some raw0)
    then show ?thesis
      by (cases dctx) (simp_all add: decompress_json_data_no_ctx decompress_json_data_ctx)
  qed
  moreover have "decompress_json_data decompress loads None dctx = Inr (JObject [])"
    by (simp add: decompress_json_data_def)
  ultimately show ?thesis
    by (simp add: decompress_json_data_no_ctx decompress_json_data_ctx)
qed

theorem decompress_json_data_total_witness:
  "decompress_json_data frame_decompress small_loads
      (Some [0x28, 0, 0x6E, 0x75, 0x6C, 0x6C]) (Some (ZstdDecompressor None)) = Inr JNull
   \<and> decompress_json_data frame_decompress small_loads
      (Some [0x6E, 0x75, 0x6C, 0x6C]) (Some (ZstdDecompressor None)) = Inr JNull
   \<and> decompress_json_data frame_decompress small_loads
      (Some [0xFF, 0x00]) (Some (ZstdDecompressor None)) = Inr (JObject [])"
proof -
  have a: "frame_decompress (ZstdDecompressor None) [0x28, 0, 0x6E, 0x75, 0x6C, 0x6C]
           = Inr [0x6E, 0x75, 0x6C, 0x6C]"
    by (simp add: frame_decompress_def)
  have b: "frame_decompress (ZstdDecompressor None) [0x6E, 0x75, 0x6C, 0x6C] = Inl ZstdError"
    by (simp add: frame_decompress_def)
  have c: "frame_decompress (ZstdDecompressor None) [0xFF, 0x00] = Inl ZstdError"
    by (simp add: frame_decompress_def)
  from a b c
    decompress_json_data_total [of frame_decompress small_loads None None
      "ZstdDecompressor None" "[0x28, 0, 0x6E, 0x75, 0x6C, 0x6C]" "[0x6E, 0x75, 0x6C, 0x6C]" ZstdError]
    decompress_json_data_total [of frame_decompress small_loads None None
      "ZstdDecompressor None" "[0x6E, 0x75, 0x6C, 0x6C]" "[]" ZstdError]
    decompress_json_data_total [of frame_decompress small_loads None None
      "ZstdDecompressor None" "[0xFF, 0x00]" "[]" ZstdError]
  show ?thesis
    by (simp add: small_loads_def)
qed

text \<open>
  Claim C5, amended. A cached decompressor is returned as it is. On a cache miss with the
  dictionary database open, a decompressor is returned and cached under the dictionary id:
  seeded with the stored blob when the blob is not empty and the library accepts it as a
  dictionary, plain otherwise (no row, NULL, empty blob, a failing query, or a blob the
  library refuses). When the database cannot be opened nothing is returned and nothing is
  cached.
\<close>

theorem get_zstd_decompressor_caches:
  "(cache d = Some cached \<longrightarrow>
      get_zstd_decompressor accepts get_db_connection cache d = (Some cached, cache))
   \<and> (cache d = None \<and> get_db_connection d = Some query \<longrightarrow>
        (\<exists>dctx. get_zstd_decompressor accepts get_db_connection cache d
                  = (Some dctx, cache(d \<mapsto> dctx))
           \<and> (\<forall>blob. query = Inr (Some (Some blob)) \<and> blob \<noteq> [] \<and> accepts blob
                  \<longrightarrow> dctx = ZstdDecompressor (Some blob))
           \<and> ((\<forall>blob. query = Inr (Some (Some blob)) \<longrightarrow> blob = [] \<or> \<not> accepts blob)
                  \<longrightarrow> dctx = ZstdDecompressor None)))
   \<and> (cache d = None \<and> get_db_connection d = None \<longrightarrow>
        get_zstd_decompressor accepts get_db_connection cache d = (None, cache))"
  by (auto simp: get_zstd_decompressor_def seeded_decompressor_def Let_def
      split: option.splits sum.splits)

theorem get_zstd_decompressor_caches_witness:
  "fst (get_zstd_decompressor frame_accepts trained_database empty_cache ''en-fr'')
     = Some (ZstdDecompressor (Some [1, 2, 3]))
   \<and> snd (get_zstd_decompressor frame_accepts trained_database empty_cache ''en-fr'') ''en-fr''
     = Some (ZstdDecompressor (Some [1, 2, 3]))
   \<and> fst (get_zstd_decompressor frame_accepts corrupt_database empty_cache ''en-fr'')
     = Some (ZstdDecompressor None)
   \<and> snd (get_zstd_decompressor frame_accepts corrupt_database empty_cache ''en-fr'') ''en-fr''
     = Some (ZstdDecompressor None)"
proof -
  have miss: "empty_cache ''en-fr'' = None"
    by (simp add: empty_cache_def)
  have conn: "trained_database ''en-fr'' = Some (Inr (Some (Some [1, 2, 3])))"
    by (simp add: trained_database_def)
  have good: "frame_accepts [1, 2, 3]"
    by (simp add: frame_accepts_def)
  have conn2: "corrupt_database ''en-fr'' = Some (Inr (Some (Some corrupt_dictionary)))"
    by (simp add: corrupt_database_def)
  have bad: "\<not> frame_accepts corrupt_dictionary"
    by (simp add: frame_accepts_def corrupt_dictionary_def)
  from get_zstd_decompressor_caches
         [where cache = empty_cache and d = "''en-fr''" and accepts = frame_accepts
            and get_db_connection = trained_database
            and query = "Inr (Some (Some [1, 2, 3]))"]
       miss conn good
  have one: "fst (get_zstd_decompressor frame_accepts trained_database empty_cache ''en-fr'')
     = Some (ZstdDecompressor (Some [1, 2, 3]))
   \<and> snd (get_zstd_decompressor frame_accepts trained_database empty_cache ''en-fr'') ''en-fr''
     = Some (ZstdDecompressor (Some [1, 2, 3]))"
    by auto
  from get_zstd_decompressor_caches
         [where cache = empty_cache and d = "''en-fr''" and accepts = frame_accepts
            and get_db_connection = corrupt_database
            and query = "Inr (Some (Some corrupt_dictionary))"]
       miss conn2 bad
  have "fst (get_zstd_decompressor frame_accepts corrupt_database empty_cache ''en-fr'')
     = Some (ZstdDecompressor None)
   \<and> snd (get_zstd_decompressor frame_accepts corrupt_database empty_cache ''en-fr'') ''en-fr''
     = Some (ZstdDecompressor None)"
    by auto
  with one show ?thesis by simp
qed

text \<open>
  Claim C5 as stated fails for a dictionary whose database cannot be opened: no
  decompressor is returned and the cache has no entry for the dictionary afterwards.
\<close>

theorem get_zstd_decompressor_counterexample:
  "fst (get_zstd_decompressor frame_accepts no_database empty_cache ''missing'') = None
   \<and> snd (get_zstd_decompressor frame_accepts no_database empty_cache ''missing'') ''missing''
       = None"
  by (simp add: get_zstd_decompressor_def no_database_def empty_cache_def)





section \<open>Properties of the auxiliary-file endpoint\<close>

lemma path_parts_no_dotdot: "\<not> contains s ''..'' \<Longrightarrow> ''..'' \<notin> set (path_parts s)"
  using str_split_contains [of "''..''" "CHR ''/''" s] by (auto simp: path_parts_def)

text \<open>
  Claim C9. A file name that contains \<open>..\<close> or starts with a slash is answered with
  status 400 whatever the file system holds: the check comes before the path is built.
  Whenever a file is served, its path is the auxiliary root followed by components none
  of which is \<open>..\<close>, and it is a file of the file system.
\<close>

theorem auxiliary_file_traversal_rejected:
  "(contains name ''..'' \<or> startswith name ''/'' \<longrightarrow>
      get_auxiliary_file fs_exists fs_is_file aux name = Inl (HTTPException 400))
   \<and> (get_auxiliary_file fs_exists fs_is_file aux name = Inr response \<longrightarrow>
      (\<exists>rel. path response = aux @ rel \<and> ''..'' \<notin> set rel
             \<and> fs_is_file (aux @ rel)))"
proof -
  have "\<exists>rel. path response = aux @ rel \<and> ''..'' \<notin> set rel \<and> fs_is_file (aux @ rel)"
    if ok: "get_auxiliary_file fs_exists fs_is_file aux name = Inr response"
  proof -
    from ok have safe: "\<not> contains name ''..''" "\<not> startswith name ''/''"
      by (auto simp: get_auxiliary_file_def split: if_splits)
    with ok have "path response = aux @ path_parts name" "fs_is_file (aux @ path_parts name)"
      by (auto simp: get_auxiliary_file_def path_div_def Let_def split: if_splits)
    with safe(1) show ?thesis
      using path_parts_no_dotdot by blast
  qed
  then show ?thesis
    by (simp add: get_auxiliary_file_def)
qed

theorem auxiliary_file_traversal_rejected_witness:
  "get_auxiliary_file aux_has aux_has aux_root ''../etc/passwd'' = Inl (HTTPException 400)
   \<and> get_auxiliary_file aux_has aux_has aux_root ''/etc/passwd'' = Inl (HTTPException 400)
   \<and> get_auxiliary_file aux_has aux_has aux_root ''data/config.json''
       = Inr \<lparr>path = aux_root @ [''data'', ''config.json''], filename = ''data/config.json''\<rparr>"
proof -
  have a: "contains ''../etc/passwd'' ''..''" by simp
  have b: "startswith ''/etc/passwd'' ''/''" by simp
  have c: "get_auxiliary_file aux_has aux_has aux_root ''data/config.json''
       = Inr \<lparr>path = aux_root @ [''data'', ''config.json''], filename = ''data/config.json''\<rparr>"
    by (simp add: get_auxiliary_file_def path_div_def path_parts_def aux_has_def aux_root_def)
  from a b c
    auxiliary_file_traversal_rejected [of "''../etc/passwd''" aux_has aux_has aux_root]
    auxiliary_file_traversal_rejected [of "''/etc/passwd''" aux_has aux_has aux_root]
    auxiliary_file_traversal_rejected [of "''data/config.json''" aux_has aux_has aux_root
       "\<lparr>path = aux_root @ [''data'', ''config.json''], filename = ''data/config.json''\<rparr>"]
  show ?thesis by simp
qed

section \<open>Properties of the migration into the media database\<close>

lemma migrate_filelist_names:
  "migrate_filelist zf_read table0 filelist = Inr table \<Longrightarrow>
   table name \<noteq> None \<Longrightarrow>
   table0 name \<noteq> None
   \<or> (\<exists>fi \<in> set filelist. \<not> zi_is_dir fi \<and> name = last (str_split CHR ''/'' (zi_filename fi)))"
proof (induction filelist arbitrary: table0)
  case Nil
  then show ?case by simp
next
  case (Cons fi rest)
  show ?case
  proof (cases "zi_is_dir fi")
    case True
    with Cons.prems have "migrate_filelist zf_read table0 rest = Inr table" by simp
    from Cons.IH [OF this Cons.prems(2)] show ?thesis by auto
  next
    case False
    let ?simple = "last (str_split CHR ''/'' (zi_filename fi))"
    from False Cons.prems(1) obtain file_data where
      rd: "zf_read (zi_filename fi) = Inr file_data"
      and rest: "migrate_filelist zf_read (table0(?simple \<mapsto> file_data)) rest = Inr table"
      by (auto simp: Let_def split: sum.splits)
    from Cons.IH [OF rest Cons.prems(2)] False show ?thesis
      by (auto split: if_splits)
  qed
qed

lemma migrate_filelist_stores:
  "migrate_filelist zf_read table0 filelist = Inr table \<Longrightarrow>
   fi \<in> set filelist \<Longrightarrow> \<not> zi_is_dir fi \<Longrightarrow>
   table (last (str_split CHR ''/'' (zi_filename fi))) \<noteq> None"
proof (induction filelist arbitrary: table0)
  case Nil
  then show ?case by simp
next
  case (Cons x rest)
  have keeps: "\<And>t0 t n. migrate_filelist zf_read t0 rest = Inr t \<Longrightarrow> t0 n \<noteq> None \<Longrightarrow> t n \<noteq> None"
  proof -
    fix t0 t n
    show "migrate_filelist zf_read t0 rest = Inr t \<Longrightarrow> t0 n \<noteq> None \<Longrightarrow> t n \<noteq> None"
    proof (induction rest arbitrary: t0)
      case Nil
      then show ?case by simp
    next
      case (Cons y ys)
      then show ?case
        by (cases "zi_is_dir y") (auto simp: Let_def split: sum.splits)
    qed
  qed
  show ?case
  proof (cases "zi_is_dir x")
    case True
    with Cons.prems have "migrate_filelist zf_read table0 rest = Inr table" "fi \<in> set rest"
      by auto
    from Cons.IH [OF this Cons.prems(3)] show ?thesis .
  next
    case False
    let ?simple = "last (str_split CHR ''/'' (zi_filename x))"
    from False Cons.prems(1) obtain file_data where
      rest: "migrate_filelist zf_read (table0(?simple \<mapsto> file_data)) rest = Inr table"
      by (auto simp: Let_def split: sum.splits)
    show ?thesis
    proof (cases "fi = x")
      case True
      have "(table0(?simple \<mapsto> file_data)) ?simple \<noteq> None" by simp
      with keeps [OF rest] True show ?thesis by blast
    next
      case False
      with Cons.prems(2) have "fi \<in> set rest" by simp
      from Cons.IH [OF rest this Cons.prems(3)] show ?thesis .
    qed
  qed
qed

lemma migrate_filelist_content:
  "migrate_filelist zf_read table0 filelist = Inr table \<Longrightarrow>
   table name = (case last_with_basename name filelist of
                   None \<Rightarrow> table0 name
                 | Some fi \<Rightarrow> stored_content zf_read fi)"
proof (induction filelist arbitrary: table0)
  case Nil
  then show ?case by (simp add: last_with_basename_def)
next
  case (Cons fi rest)
  show ?case
  proof (cases "zi_is_dir fi")
    case True
    with Cons.prems have "migrate_filelist zf_read table0 rest = Inr table" by simp
    from Cons.IH [OF this] True show ?thesis
      by (simp add: last_with_basename_def)
  next
    case False
    let ?simple = "last (str_split CHR ''/'' (zi_filename fi))"
    from False Cons.prems obtain file_data where
      rd: "zf_read (zi_filename fi) = Inr file_data"
      and rest: "migrate_filelist zf_read (table0(?simple \<mapsto> file_data)) rest = Inr table"
      by (auto simp: Let_def split: sum.splits)
    have later: "last_with_basename name (fi # rest) =
                 (case last_with_basename name rest of
                    Some fj \<Rightarrow> Some fj
                  | None \<Rightarrow> if ?simple = name then Some fi else None)"
      using False by (simp add: last_with_basename_def find_app split: option.splits)
    from Cons.IH [OF rest] rd show ?thesis
      unfolding later by (auto simp: stored_content_def split: option.splits)
  qed
qed

text \<open>
  Claim C10, amended. After a migration into an empty table, the table holds under each
  name the content of the last non-directory entry of the archive with that basename, and
  nothing under any other name (an entry enumerated later replaces the record of an
  earlier entry with the same basename); so the basename of every non-directory entry has
  a record, and the lookup of a request path that contains a slash finds no record
  (status 404).
\<close>

theorem migrated_names_are_basenames:
  assumes "migrate_filelist zf_read Map.empty filelist = Inr table"
  shows "table name = Option.bind (last_with_basename name filelist) (stored_content zf_read)
         \<and> (\<forall>fi \<in> set filelist. \<not> zi_is_dir fi \<longrightarrow>
              table (last (str_split CHR ''/'' (zi_filename fi))) \<noteq> None)
         \<and> (CHR ''/'' \<in> set file_path \<longrightarrow>
              media_db_lookup table file_path = Inl (HTTPException 404))"
proof -
  have content: "table name = Option.bind (last_with_basename name filelist) (stored_content zf_read)"
    using migrate_filelist_content [OF assms, of name]
    by (simp split: option.splits)
  have stored: "\<forall>fi \<in> set filelist. \<not> zi_is_dir fi \<longrightarrow>
            table (last (str_split CHR ''/'' (zi_filename fi))) \<noteq> None"
    using migrate_filelist_stores [OF assms] by blast
  have names: "\<exists>fi \<in> set filelist. \<not> zi_is_dir fi
                 \<and> n = last (str_split CHR ''/'' (zi_filename fi))"
    if "table n \<noteq> None" for n
    using migrate_filelist_names [OF assms that] by simp
  have "table file_path = None" if "CHR ''/'' \<in> set file_path"
  proof (rule ccontr)
    assume "table file_path \<noteq> None"
    then have "\<exists>fi \<in> set filelist. \<not> zi_is_dir fi
                 \<and> file_path = last (str_split CHR ''/'' (zi_filename fi))"
      by (rule names)
    then obtain fi :: zip_info where
      "file_path = last (str_split CHR ''/'' (zi_filename fi))" by auto
    with that last_str_split_no_sep [of "CHR ''/''" "zi_filename fi"] show False by simp
  qed
  then have "CHR ''/'' \<in> set file_path \<longrightarrow>
              media_db_lookup table file_path = Inl (HTTPException 404)"
    by (simp add: media_db_lookup_def)
  with content stored show ?thesis by blast
qed

text \<open>
  The archive with the entry \<open>media/audios/word1.mp3\<close>: the request path
  \<open>audios/word1.mp3\<close> resolves through the archive index and is not found in the
  migrated table, where the entry is stored as \<open>word1.mp3\<close>.
\<close>

theorem migrated_names_are_basenames_witness:
  "migrate_filelist example_read Map.empty example_filelist
     = Inr (Map.empty(''word1.mp3'' \<mapsto> [0x49, 0x44, 0x33]))
   \<and> media_db_lookup (Map.empty(''word1.mp3'' \<mapsto> [0x49, 0x44, 0x33])) ''audios/word1.mp3''
     = Inl (HTTPException 404)
   \<and> media_db_lookup (Map.empty(''word1.mp3'' \<mapsto> [0x49, 0x44, 0x33])) ''word1.mp3''
     = Inr [0x49, 0x44, 0x33]
   \<and> build_zip_index (map zi_filename example_filelist) ''audios/word1.mp3''
     = Some ''media/audios/word1.mp3''"
proof -
  have m: "migrate_filelist example_read Map.empty example_filelist
           = Inr (Map.empty(''word1.mp3'' \<mapsto> [0x49, 0x44, 0x33]))"
    by (simp add: example_filelist_def example_read_def)
  have sl: "CHR ''/'' \<in> set ''audios/word1.mp3''" by simp
  have z: "build_zip_index (map zi_filename example_filelist) ''audios/word1.mp3''
     = Some ''media/audios/word1.mp3''"
    by (simp add: build_zip_index_def index_name_def endswith_def example_filelist_def Let_def)
  from migrated_names_are_basenames [OF m, of "''audios/word1.mp3''"] sl z m
  show ?thesis by (simp add: media_db_lookup_def)
qed

text \<open>
  Claim C10 as stated fails on the first half: not every non-directory entry is stored.
  With \<open>a/x.mp3\<close> enumerated before \<open>b/x.mp3\<close>, the migration ends with the single
  record \<open>x.mp3\<close> holding the content of the second entry; the content of the first is
  in no record.
\<close>

theorem migrated_names_are_basenames_counterexample:
  "migrate_filelist collide_read empty_table collide_filelist = Inr collide_table
   \<and> collide_read ''a/x.mp3'' = Inr [1]
   \<and> media_db_lookup collide_table ''x.mp3'' = Inr [2]"
  by (simp add: collide_filelist_def collide_read_def empty_table_def collide_table_def
      media_db_lookup_def)

end
